theory Spec2Isabelle
  imports Main "HOL-Library.AList"
begin

section \<open>The Astro Scheduler: interval scheduling with conflict detection\<close>

text \<open>
  A shallow embedding of the scheduling core of Assignment 2: \<^verbatim>\<open>TimeUtils\<close>,
  \<^verbatim>\<open>Task\<close>, \<^verbatim>\<open>ValidationService\<close>, \<^verbatim>\<open>EventDataFactory\<close> and \<^verbatim>\<open>ScheduleManager\<close>.

  Conventions of the embedding.
  \<^item> A JavaScript string is a \<open>string\<close>; a character is one code unit below 256.
  \<^item> A JavaScript number that holds an integer is an \<open>int\<close> (exact below \<open>2^53\<close>);
    \<open>NaN\<close> is \<open>None\<close>.
  \<^item> A thrown exception is \<open>Inl e\<close> of the result type \<open>error + 'a\<close>; a normal return
    is \<open>Inr v\<close>. State that was changed before the throw stays changed.
  \<^item> A \<^verbatim>\<open>Date\<close> is the instant it denotes, an \<open>int\<close> of milliseconds; the ISO-8601
    text that \<^verbatim>\<open>toISOString\<close> writes and \<^verbatim>\<open>new Date\<close> reads back denotes the same
    instant. Every operation that reads the clock takes the reading as its
    argument \<open>now\<close>.
  \<^item> A task is its value. The manager stores the caller's \<^verbatim>\<open>Task\<close> object; a caller
    that changes the object afterwards, behind the manager, is outside the model.

  Of \<^verbatim>\<open>ScheduleManager\<close> the model has the operations that change the schedule, the
  event dispatch, and the read operations that the others use. The singleton
  accessor, \<^verbatim>\<open>attach\<close> and \<^verbatim>\<open>detach\<close>, and the filtered views are left out.
\<close>

subsection \<open>Errors (utils/ErrorHandler.ts)\<close>

text \<open>An error object has a \<^verbatim>\<open>name\<close> and a \<^verbatim>\<open>message\<close>; each class of
  \<^verbatim>\<open>ErrorHandler.ts\<close> sets \<^verbatim>\<open>name\<close> to its class name.\<close>

datatype error = JSError (error_name: string) (error_message: string)

definition TaskConflictError :: "string \<Rightarrow> error" where
  "TaskConflictError msg = JSError ''TaskConflictError'' msg"

definition TaskNotFoundError :: "string \<Rightarrow> error" where
  "TaskNotFoundError msg = JSError ''TaskNotFoundError'' msg"

definition InvalidTimeFormatError :: "string \<Rightarrow> error" where
  "InvalidTimeFormatError msg = JSError ''InvalidTimeFormatError'' msg"

definition InvalidTimeRangeError :: "string \<Rightarrow> error" where
  "InvalidTimeRangeError msg = JSError ''InvalidTimeRangeError'' msg"

definition InvalidTaskDescriptionError :: "string \<Rightarrow> error" where
  "InvalidTaskDescriptionError msg = JSError ''InvalidTaskDescriptionError'' msg"

definition Error :: "string \<Rightarrow> error" where
  "Error msg = JSError ''Error'' msg"

subsection \<open>Strings\<close>

definition dquote :: string where
  "dquote = [CHR 0x22]"

text \<open>The white space that \<^verbatim>\<open>String.prototype.trim\<close> and \<^verbatim>\<open>parseInt\<close> strip:
  TAB, LF, VT, FF, CR, SPACE and NBSP among the code units below 256.\<close>

definition isWhiteSpace :: "char \<Rightarrow> bool" where
  "isWhiteSpace c \<longleftrightarrow> (of_char c :: nat) \<in> {9, 10, 11, 12, 13, 32, 160}"

definition trim :: "string \<Rightarrow> string" where
  "trim s = rev (dropWhile isWhiteSpace (rev (dropWhile isWhiteSpace s)))"

definition isDigit :: "char \<Rightarrow> bool" where
  "isDigit c \<longleftrightarrow> 48 \<le> (of_char c :: nat) \<and> (of_char c :: nat) \<le> 57"

definition digitValue :: "char \<Rightarrow> int" where
  "digitValue c = int (of_char c) - 48"

text \<open>\<^verbatim>\<open>toLowerCase\<close> on the code units below 256: the letters A to Z and the
  capital letters of Latin-1 (all of 192 to 222 but the multiplication sign 215)
  move up by 32; the others are left as they are.\<close>

definition lowerChar :: "char \<Rightarrow> char" where
  "lowerChar c =
     (let n = (of_char c :: nat)
      in if (65 \<le> n \<and> n \<le> 90) \<or> (192 \<le> n \<and> n \<le> 222 \<and> n \<noteq> 215)
         then char_of (n + 32) else c)"

definition toLowerCase :: "string \<Rightarrow> string" where
  "toLowerCase s = map lowerChar s"

text \<open>\<^verbatim>\<open>s.split(sep)\<close> for a one-character separator: never the empty array.\<close>

fun split :: "char \<Rightarrow> string \<Rightarrow> string list" where
  "split sep [] = [ [] ]"
| "split sep (c # cs) =
     (if c = sep then [] # split sep cs
      else (case split sep cs of [] \<Rightarrow> [ [c] ] | p # ps \<Rightarrow> (c # p) # ps))"

text \<open>\<^verbatim>\<open>parseInt(s, 10)\<close>: leading white space is skipped, one sign is read, then the
  longest run of decimal digits; no digit at all gives \<open>NaN\<close>.\<close>

definition digitsValue :: "string \<Rightarrow> int" where
  "digitsValue ds = foldl (\<lambda>acc c. acc * 10 + digitValue c) 0 ds"

definition parseUnsigned :: "string \<Rightarrow> int option" where
  "parseUnsigned s =
     (let ds = takeWhile isDigit s in if ds = [] then None else Some (digitsValue ds))"

definition parseInt :: "string \<Rightarrow> int option" where
  "parseInt s =
     (case dropWhile isWhiteSpace s of
        [] \<Rightarrow> None
      | c # cs \<Rightarrow>
          if c = CHR ''-'' then map_option uminus (parseUnsigned cs)
          else if c = CHR ''+'' then parseUnsigned cs
          else parseUnsigned (c # cs))"

text \<open>Decimal rendering of a count inside a template string.\<close>

fun showDigit :: "nat \<Rightarrow> char" where
  "showDigit n = char_of (48 + n)"

function showNat :: "nat \<Rightarrow> string" where
  "showNat n = (if n < 10 then [showDigit n] else showNat (n div 10) @ [showDigit (n mod 10)])"
  by pat_completeness auto
termination
  by (relation "measure id") auto

subsection \<open>TimeUtils (utils/TimeUtils.ts)\<close>

text \<open>\<^verbatim>\<open>TIME_REGEX = /^([01]\d|2[0-3]):([0-5]\d)$/\<close>\<close>

fun TIME_REGEX_test :: "string \<Rightarrow> bool" where
  "TIME_REGEX_test [h1, h2, c, m1, m2] =
     ((((h1 = CHR ''0'' \<or> h1 = CHR ''1'') \<and> isDigit h2)
        \<or> (h1 = CHR ''2'' \<and> h2 \<in> set ''0123''))
      \<and> c = CHR '':'' \<and> m1 \<in> set ''012345'' \<and> isDigit m2)"
| "TIME_REGEX_test _ = False"

definition validateTimeFormat :: "string \<Rightarrow> error + unit" where
  "validateTimeFormat time =
     (if \<not> TIME_REGEX_test time
      then Inl (InvalidTimeFormatError
             (''Invalid time format '' @ dquote @ time @ dquote @ ''. Must be HH:MM (24-hour format).''))
      else Inr ())"

text \<open>\<^verbatim>\<open>const [hourStr, minuteStr] = time.split(':')\<close>: with a single part
  \<^verbatim>\<open>minuteStr\<close> is \<^verbatim>\<open>undefined\<close>, which \<^verbatim>\<open>parseInt\<close> reads as \<open>NaN\<close>.\<close>

definition timeToMinutes :: "string \<Rightarrow> error + int" where
  "timeToMinutes time =
     (let parts = split (CHR '':'') time;
          hours = (case parts of [] \<Rightarrow> None | hourStr # _ \<Rightarrow> parseInt hourStr);
          minutes = (case parts of _ # minuteStr # _ \<Rightarrow> parseInt minuteStr | _ \<Rightarrow> None)
      in case (hours, minutes) of
           (Some h, Some m) \<Rightarrow> Inr (h * 60 + m)
         | _ \<Rightarrow> Inl (InvalidTimeFormatError
                  (''Internal error converting time '' @ dquote @ time @ dquote @ ''.'')))"

definition validateTimeRange :: "string \<Rightarrow> string \<Rightarrow> error + unit" where
  "validateTimeRange startTime endTime =
     (case timeToMinutes startTime of
        Inl e \<Rightarrow> Inl e
      | Inr startMinutes \<Rightarrow>
          (case timeToMinutes endTime of
             Inl e \<Rightarrow> Inl e
           | Inr endMinutes \<Rightarrow>
               if startMinutes \<ge> endMinutes
               then Inl (InvalidTimeRangeError
                      (''Invalid time range: Start time ('' @ startTime
                        @ '') must be strictly before end time ('' @ endTime @ '').''))
               else Inr ()))"

definition compareTimeStrings :: "string \<Rightarrow> string \<Rightarrow> error + int" where
  "compareTimeStrings time1 time2 =
     (case timeToMinutes time1 of
        Inl e \<Rightarrow> Inl e
      | Inr minutes1 \<Rightarrow>
          (case timeToMinutes time2 of
             Inl e \<Rightarrow> Inl e
           | Inr minutes2 \<Rightarrow> Inr (minutes1 - minutes2)))"

definition doTimeRangesOverlap :: "string \<Rightarrow> string \<Rightarrow> string \<Rightarrow> string \<Rightarrow> error + bool" where
  "doTimeRangesOverlap start1 end1 start2 end2 =
     (case timeToMinutes start1 of Inl e \<Rightarrow> Inl e | Inr s1 \<Rightarrow>
      (case timeToMinutes end1 of Inl e \<Rightarrow> Inl e | Inr e1 \<Rightarrow>
       (case timeToMinutes start2 of Inl e \<Rightarrow> Inl e | Inr s2 \<Rightarrow>
        (case timeToMinutes end2 of Inl e \<Rightarrow> Inl e | Inr e2 \<Rightarrow>
           Inr (s1 < e2 \<and> s2 < e1)))))"

subsection \<open>Task (models/Task.ts, models/TaskPriority.ts)\<close>

text \<open>\<^verbatim>\<open>TaskPriority\<close> is a string enum; at run time a priority is its string, and
  \<^verbatim>\<open>Task.fromJSON\<close> casts whatever string it reads.\<close>

type_synonym TaskPriority = string

definition LOW :: TaskPriority where "LOW = ''Low''"
definition MEDIUM :: TaskPriority where "MEDIUM = ''Medium''"
definition HIGH :: TaskPriority where "HIGH = ''High''"

record Task =
  id' :: string
  description :: string
  startTime :: string
  endTime :: string
  priority :: TaskPriority
  completed :: bool
  createdAt :: int
  updatedAt :: "int option"

text \<open>The argument of \<^verbatim>\<open>Task.update\<close>, a \<^verbatim>\<open>Partial<Omit<Task, 'id' | 'createdAt'>>\<close>:
  the five properties that \<^verbatim>\<open>update\<close> reads, \<open>None\<close> where the property is
  \<^verbatim>\<open>undefined\<close>.\<close>

record TaskUpdates =
  description_upd :: "string option"
  startTime_upd :: "string option"
  endTime_upd :: "string option"
  priority_upd :: "TaskPriority option"
  completed_upd :: "bool option"

text \<open>The plain object that \<^verbatim>\<open>Task.toJSON\<close> returns and \<^verbatim>\<open>Task.fromJSON\<close> reads.\<close>

record TaskJSON =
  id_json :: string
  description_json :: string
  startTime_json :: string
  endTime_json :: string
  priority_json :: string
  completed_json :: bool
  createdAt_json :: int
  updatedAt_json :: "int option"
  durationMinutes :: "int option"

definition clone :: "Task \<Rightarrow> Task" where
  "clone task = task"

definition Task_update :: "int \<Rightarrow> TaskUpdates \<Rightarrow> Task \<Rightarrow> Task" where
  "Task_update now updates task =
     task\<lparr> description := (case description_upd updates of Some v \<Rightarrow> v | None \<Rightarrow> description task),
           startTime := (case startTime_upd updates of Some v \<Rightarrow> v | None \<Rightarrow> startTime task),
           endTime := (case endTime_upd updates of Some v \<Rightarrow> v | None \<Rightarrow> endTime task),
           priority := (case priority_upd updates of Some v \<Rightarrow> v | None \<Rightarrow> priority task),
           completed := (case completed_upd updates of Some v \<Rightarrow> v | None \<Rightarrow> completed task),
           updatedAt := Some now \<rparr>"

definition markCompleted :: "int \<Rightarrow> Task \<Rightarrow> Task" where
  "markCompleted now task = task\<lparr> completed := True, updatedAt := Some now \<rparr>"

text \<open>\<^verbatim>\<open>getDurationInMinutes\<close> calls \<^verbatim>\<open>parseInt\<close> without a radix, which reads a
  \<^verbatim>\<open>0x\<close> prefix as hexadecimal; the result may be \<open>NaN\<close>.\<close>

definition isHexDigit :: "char \<Rightarrow> bool" where
  "isHexDigit c \<longleftrightarrow> isDigit c \<or> c \<in> set ''abcdefABCDEF''"

definition hexValue :: "char \<Rightarrow> int" where
  "hexValue c =
     (if isDigit c then digitValue c
      else if (of_char c :: nat) \<ge> 97 then int (of_char c) - 87
      else int (of_char c) - 55)"

definition parseHex :: "string \<Rightarrow> int option" where
  "parseHex s =
     (let ds = takeWhile isHexDigit s
      in if ds = [] then None else Some (foldl (\<lambda>acc c. acc * 16 + hexValue c) 0 ds))"

definition parseUnsignedAuto :: "string \<Rightarrow> int option" where
  "parseUnsignedAuto s =
     (case s of
        a # b # rest \<Rightarrow>
          if a = CHR ''0'' \<and> (b = CHR ''x'' \<or> b = CHR ''X'') then parseHex rest
          else parseUnsigned s
      | _ \<Rightarrow> parseUnsigned s)"

definition parseIntAuto :: "string \<Rightarrow> int option" where
  "parseIntAuto s =
     (case dropWhile isWhiteSpace s of
        [] \<Rightarrow> None
      | c # cs \<Rightarrow>
          if c = CHR ''-'' then map_option uminus (parseUnsignedAuto cs)
          else if c = CHR ''+'' then parseUnsignedAuto cs
          else parseUnsignedAuto (c # cs))"

definition partsMinutes :: "string list \<Rightarrow> int option" where
  "partsMinutes parts =
     (case parts of
        p0 # p1 # _ \<Rightarrow>
          (case (parseIntAuto p0, parseIntAuto p1) of
             (Some h, Some m) \<Rightarrow> Some (h * 60 + m)
           | _ \<Rightarrow> None)
      | _ \<Rightarrow> None)"

definition getDurationInMinutes :: "Task \<Rightarrow> int option" where
  "getDurationInMinutes task =
     (case (partsMinutes (split (CHR '':'') (startTime task)),
            partsMinutes (split (CHR '':'') (endTime task))) of
        (Some startMinutes, Some endMinutes) \<Rightarrow> Some (endMinutes - startMinutes)
      | _ \<Rightarrow> None)"

definition toJSON :: "Task \<Rightarrow> TaskJSON" where
  "toJSON task =
     \<lparr> id_json = id' task,
       description_json = description task,
       startTime_json = startTime task,
       endTime_json = endTime task,
       priority_json = priority task,
       completed_json = completed task,
       createdAt_json = createdAt task,
       updatedAt_json = updatedAt task,
       durationMinutes = getDurationInMinutes task \<rparr>"

definition fromJSON :: "TaskJSON \<Rightarrow> Task" where
  "fromJSON obj =
     \<lparr> id' = id_json obj,
       description = description_json obj,
       startTime = startTime_json obj,
       endTime = endTime_json obj,
       priority = priority_json obj,
       completed = completed_json obj,
       createdAt = createdAt_json obj,
       updatedAt = updatedAt_json obj \<rparr>"

subsection \<open>ValidationService (services/ValidationService.ts)\<close>

definition validateTask :: "Task \<Rightarrow> error + unit" where
  "validateTask task =
     (if description task = [] \<or> trim (description task) = []
      then Inl (InvalidTaskDescriptionError ''Task description cannot be empty.'')
      else (case validateTimeFormat (startTime task) of
              Inl e \<Rightarrow> Inl e
            | Inr _ \<Rightarrow>
                (case validateTimeFormat (endTime task) of
                   Inl e \<Rightarrow> Inl e
                 | Inr _ \<Rightarrow> validateTimeRange (startTime task) (endTime task))))"

fun checkTaskOverlap :: "Task \<Rightarrow> Task list \<Rightarrow> error + Task option" where
  "checkTaskOverlap newTask [] = Inr None"
| "checkTaskOverlap newTask (existingTask # rest) =
     (if id' existingTask = id' newTask then checkTaskOverlap newTask rest
      else (case doTimeRangesOverlap (startTime newTask) (endTime newTask)
                   (startTime existingTask) (endTime existingTask) of
              Inl e \<Rightarrow> Inl e
            | Inr isOverlapping \<Rightarrow>
                if isOverlapping then Inr (Some existingTask)
                else checkTaskOverlap newTask rest))"

subsection \<open>Events and observers (interfaces/IObserver.ts, interfaces/ISubject.ts)\<close>

datatype ScheduleEvent =
    TASK_ADDED | TASK_REMOVED | TASK_UPDATED | TASK_COMPLETED
  | TASK_CONFLICT | TASK_ADD_FAILED | TASK_UPDATE_FAILED | TASK_VALIDATION_FAILED
  | SCHEDULE_CLEARED | SCHEDULE_IMPORTED | SCHEDULE_EXPORTED
  | SYSTEM_ERROR | SYSTEM_WARNING | SYSTEM_INFO

text \<open>The values that the manager puts into an event's payload object. \<open>PStack e\<close> is
  the stack trace text of the error \<open>e\<close>.\<close>

datatype payload =
    PTask Task
  | PJSON TaskJSON
  | PString string
  | PNumber nat
  | PUpdates TaskUpdates
  | PStack error

text \<open>\<^verbatim>\<open>IEventData\<close>: an optional property that is absent is \<open>None\<close>; a payload
  object is the list of its properties in the order they are written.\<close>

record IEventData =
  timestamp :: int
  message :: "string option"
  data :: "(string \<times> payload) list option"
  error :: "error option"
  context' :: "(string \<times> payload) list option"
  isError :: "bool option"

definition create :: "int \<Rightarrow> string option \<Rightarrow> (string \<times> payload) list option \<Rightarrow> error option
    \<Rightarrow> IEventData" where
  "create now msg payload err =
     \<lparr> timestamp = now, message = msg, data = payload, error = err,
       context' = None, isError = None \<rparr>"

text \<open>\<^verbatim>\<open>message: message || error.message\<close>: an absent or empty message gives way to
  the error's own.\<close>

definition createError :: "int \<Rightarrow> error \<Rightarrow> string option \<Rightarrow> IEventData" where
  "createError now err msg =
     \<lparr> timestamp = now,
       message = Some (case msg of
                         None \<Rightarrow> error_message err
                       | Some text \<Rightarrow> if text = [] then error_message err else text),
       data = Some [(''errorName'', PString (error_name err)), (''errorStack'', PStack err)],
       error = Some err,
       context' = None, isError = None \<rparr>"

definition createSuccess :: "int \<Rightarrow> string \<Rightarrow> (string \<times> payload) list option \<Rightarrow> IEventData" where
  "createSuccess now msg payload =
     \<lparr> timestamp = now, message = Some msg, data = payload, error = None,
       context' = None, isError = None \<rparr>"

text \<open>
  An observer is the behaviour of its three methods. \<^verbatim>\<open>update\<close> and the optional
  \<^verbatim>\<open>isInterestedIn\<close> run code of the observer and either return or throw;
  the optional \<^verbatim>\<open>getName\<close> is an accessor that returns the observer's name.
  Observers do not call back into the manager.
\<close>

record IObserver =
  update :: "ScheduleEvent \<Rightarrow> IEventData \<Rightarrow> error + unit"
  getName :: "string option"
  isInterestedIn :: "(ScheduleEvent \<Rightarrow> error + bool) option"

text \<open>What a call of the manager does besides changing its tasks: \<open>Published\<close> is a
  call of \<^verbatim>\<open>notify\<close>, \<open>Invoked i\<close> a call of \<^verbatim>\<open>update\<close> on the \<open>i\<close>-th attached
  observer, \<open>ObserverFailed i\<close> the \<^verbatim>\<open>Logger.error\<close> call of \<^verbatim>\<open>notify\<close>'s catch
  block. The other calls of the file logger are left out; the logger catches its
  own file errors and never throws.\<close>

datatype effect =
    Published ScheduleEvent IEventData
  | Invoked nat ScheduleEvent IEventData
  | ObserverFailed nat "string option" ScheduleEvent error

subsection \<open>ScheduleManager (patterns/singleton/ScheduleManager.ts)\<close>

text \<open>\<^verbatim>\<open>tasks\<close> is a \<^verbatim>\<open>Map<string, Task>\<close>: an association list in insertion order.
  \<^verbatim>\<open>Map.set\<close> replaces the value of a present key where it stands and appends an
  absent key (\<open>AList.update\<close>); \<^verbatim>\<open>Map.delete\<close> is \<open>AList.delete\<close>; \<^verbatim>\<open>Map.get\<close> is
  \<open>map_of\<close>; \<^verbatim>\<open>Map.values\<close> is \<open>map snd\<close>.\<close>

record ScheduleManager =
  tasks :: "(string \<times> Task) list"
  observers :: "IObserver list"

text \<open>The body of the \<^verbatim>\<open>try\<close> block of \<^verbatim>\<open>notify\<close> for one observer: its outcome,
  and whether \<^verbatim>\<open>update\<close> was called.\<close>

definition notifyObserver :: "IObserver \<Rightarrow> ScheduleEvent \<Rightarrow> IEventData \<Rightarrow> (error + unit) \<times> bool" where
  "notifyObserver observer event d =
     (case isInterestedIn observer of
        None \<Rightarrow> (update observer event d, True)
      | Some interested \<Rightarrow>
          (case interested event of
             Inl e \<Rightarrow> (Inl e, False)
           | Inr b \<Rightarrow> if \<not> b then (Inr (), False) else (update observer event d, True)))"

text \<open>The \<^verbatim>\<open>catch\<close> block of \<^verbatim>\<open>notify\<close>: it logs and returns.\<close>

definition notifyCatch :: "nat \<Rightarrow> IObserver \<Rightarrow> ScheduleEvent \<Rightarrow> error \<Rightarrow> (error + unit) \<times> effect list" where
  "notifyCatch i observer event e = (Inr (), [ObserverFailed i (getName observer) event e])"

fun notifyLoop :: "nat \<Rightarrow> IObserver list \<Rightarrow> ScheduleEvent \<Rightarrow> IEventData
    \<Rightarrow> (error + unit) \<times> effect list" where
  "notifyLoop i [] event d = (Inr (), [])"
| "notifyLoop i (observer # rest) event d =
     (case notifyObserver observer event d of
        (r, called) \<Rightarrow>
          (case (case r of Inl e \<Rightarrow> notifyCatch i observer event e | Inr _ \<Rightarrow> (Inr (), [])) of
             (Inl e, fx) \<Rightarrow> (Inl e, (if called then [Invoked i event d] else []) @ fx)
           | (Inr _, fx) \<Rightarrow>
               (case notifyLoop (Suc i) rest event d of
                  (r', fx') \<Rightarrow> (r', (if called then [Invoked i event d] else []) @ fx @ fx'))))"

definition notify :: "ScheduleManager \<Rightarrow> ScheduleEvent \<Rightarrow> IEventData \<Rightarrow> (error + unit) \<times> effect list" where
  "notify m event d =
     (case notifyLoop 0 (observers m) event d of (r, fx) \<Rightarrow> (r, Published event d # fx))"

text \<open>The result of a call: what it returns or throws, the manager after it, and
  what it did.\<close>

type_synonym 'a outcome = "(error + 'a) \<times> ScheduleManager \<times> effect list"

definition checkForConflict :: "ScheduleManager \<Rightarrow> Task \<Rightarrow> error + Task option" where
  "checkForConflict m task = checkTaskOverlap task (map snd (tasks m))"

text \<open>The \<^verbatim>\<open>try\<close> block of \<^verbatim>\<open>addTask\<close>.\<close>

definition addTask_try :: "int \<Rightarrow> Task \<Rightarrow> ScheduleManager \<Rightarrow> unit outcome" where
  "addTask_try now task m =
     (case validateTask task of
        Inl e \<Rightarrow> (Inl e, m, [])
      | Inr _ \<Rightarrow>
          (case checkForConflict m task of
             Inl e \<Rightarrow> (Inl e, m, [])
           | Inr (Some conflictingTask) \<Rightarrow>
               (case notify m TASK_CONFLICT
                       (create now
                          (Some (''Task '' @ dquote @ description task @ dquote
                                 @ '' conflicts with '' @ dquote @ description conflictingTask @ dquote))
                          (Some [(''newTask'', PTask task), (''existingTask'', PTask conflictingTask)])
                          None) of
                  (Inl e, fx) \<Rightarrow> (Inl e, m, fx)
                | (Inr _, fx) \<Rightarrow>
                    (Inl (TaskConflictError
                           (''Task conflicts with existing task '' @ dquote
                            @ description conflictingTask @ dquote @ '' (''
                            @ startTime conflictingTask @ ''-'' @ endTime conflictingTask @ '')'')),
                     m, fx))
           | Inr None \<Rightarrow>
               (let m' = m\<lparr> tasks := AList.update (id' task) task (tasks m) \<rparr>
                in case notify m' TASK_ADDED
                          (createSuccess now
                             (''Task '' @ dquote @ description task @ dquote @ '' added successfully'')
                             (Some [(''task'', PJSON (toJSON task))])) of
                     (r, fx) \<Rightarrow> (r, m', fx))))"

definition addTask :: "int \<Rightarrow> Task \<Rightarrow> ScheduleManager \<Rightarrow> unit outcome" where
  "addTask now task m =
     (case addTask_try now task m of
        (Inr v, m', fx) \<Rightarrow> (Inr v, m', fx)
      | (Inl err, m', fx) \<Rightarrow>
          (case notify m' TASK_ADD_FAILED
                  (createError now err
                     (Some (''Failed to add task '' @ dquote @ description task @ dquote))) of
             (Inl e, fx') \<Rightarrow> (Inl e, m', fx @ fx')
           | (Inr _, fx') \<Rightarrow> (Inl err, m', fx @ fx')))"

definition getTaskByDescription :: "ScheduleManager \<Rightarrow> string \<Rightarrow> Task option" where
  "getTaskByDescription m d =
     find (\<lambda>task. toLowerCase (description task) = toLowerCase d) (map snd (tasks m))"

definition removeTask :: "int \<Rightarrow> string \<Rightarrow> ScheduleManager \<Rightarrow> bool outcome" where
  "removeTask now d m =
     (case getTaskByDescription m d of
        None \<Rightarrow> (Inr False, m, [])
      | Some task \<Rightarrow>
          (let deleted = (map_of (tasks m) (id' task) \<noteq> None);
               m' = m\<lparr> tasks := AList.delete (id' task) (tasks m) \<rparr>
           in if deleted
              then (case notify m' TASK_REMOVED
                           (createSuccess now
                              (''Task '' @ dquote @ d @ dquote @ '' removed successfully'')
                              (Some [(''taskId'', PString (id' task)), (''task'', PJSON (toJSON task))])) of
                      (Inl e, fx) \<Rightarrow> (Inl e, m', fx)
                    | (Inr _, fx) \<Rightarrow> (Inr deleted, m', fx))
              else (Inr deleted, m', [])))"

text \<open>\<^verbatim>\<open>updateTask\<close> has no \<^verbatim>\<open>try\<close> block: what \<^verbatim>\<open>validateTask\<close> or the overlap check
  throws leaves it as it is. \<^verbatim>\<open>task.update\<close> changes the object stored under
  \<^verbatim>\<open>taskId\<close> where it stands.\<close>

definition updateTask :: "int \<Rightarrow> string \<Rightarrow> TaskUpdates \<Rightarrow> ScheduleManager \<Rightarrow> unit outcome" where
  "updateTask now taskId updatedTask m =
     (case map_of (tasks m) taskId of
        None \<Rightarrow>
          (Inl (TaskNotFoundError (''Task with ID '' @ dquote @ taskId @ dquote @ '' not found'')),
           m, [])
      | Some task \<Rightarrow>
          (let tempTask = Task_update now updatedTask (clone task)
           in case validateTask tempTask of
                Inl e \<Rightarrow> (Inl e, m, [])
              | Inr _ \<Rightarrow>
                  (let otherTasks = filter (\<lambda>t. id' t \<noteq> taskId) (map snd (tasks m))
                   in case checkTaskOverlap tempTask otherTasks of
                        Inl e \<Rightarrow> (Inl e, m, [])
                      | Inr (Some conflictingTask) \<Rightarrow>
                          (case notify m TASK_UPDATE_FAILED
                                  (create now
                                     (Some (''Task update would conflict with '' @ dquote
                                            @ description conflictingTask @ dquote))
                                     (Some [(''taskId'', PString taskId),
                                            (''updatedTask'', PUpdates updatedTask),
                                            (''conflictingTask'', PJSON (toJSON conflictingTask))])
                                     None) of
                             (Inl e, fx) \<Rightarrow> (Inl e, m, fx)
                           | (Inr _, fx) \<Rightarrow>
                               (Inl (TaskConflictError
                                      (''Update would conflict with task '' @ dquote
                                       @ description conflictingTask @ dquote)),
                                m, fx))
                      | Inr None \<Rightarrow>
                          (let task' = Task_update now updatedTask task;
                               m' = m\<lparr> tasks := AList.update taskId task' (tasks m) \<rparr>
                           in case notify m' TASK_UPDATED
                                     (createSuccess now
                                        (''Task '' @ dquote @ description task' @ dquote
                                         @ '' updated successfully'')
                                        (Some [(''taskId'', PString taskId),
                                               (''task'', PJSON (toJSON task')),
                                               (''updates'', PUpdates updatedTask)])) of
                                (r, fx) \<Rightarrow> (r, m', fx)))))"

text \<open>\<^verbatim>\<open>task.markCompleted()\<close> changes the object that \<^verbatim>\<open>find\<close> returned: the first
  entry, in map order, whose description matches.\<close>

fun modifyFirst :: "('a \<Rightarrow> bool) \<Rightarrow> ('a \<Rightarrow> 'a) \<Rightarrow> 'a list \<Rightarrow> 'a list" where
  "modifyFirst P f [] = []"
| "modifyFirst P f (x # xs) = (if P x then f x # xs else x # modifyFirst P f xs)"

definition markTaskCompleted :: "int \<Rightarrow> string \<Rightarrow> ScheduleManager \<Rightarrow> unit outcome" where
  "markTaskCompleted now d m =
     (case getTaskByDescription m d of
        None \<Rightarrow> (Inl (TaskNotFoundError (''Task '' @ dquote @ d @ dquote @ '' not found'')), m, [])
      | Some task \<Rightarrow>
          (let task' = markCompleted now task;
               m' = m\<lparr> tasks := modifyFirst
                                   (\<lambda>(k, t). toLowerCase (description t) = toLowerCase d)
                                   (\<lambda>(k, t). (k, markCompleted now t)) (tasks m) \<rparr>
           in case notify m' TASK_COMPLETED
                     (createSuccess now
                        (''Task '' @ dquote @ d @ dquote @ '' marked as completed'')
                        (Some [(''task'', PJSON (toJSON task'))])) of
                (r, fx) \<Rightarrow> (r, m', fx)))"

definition clearAllTasks :: "int \<Rightarrow> ScheduleManager \<Rightarrow> unit outcome" where
  "clearAllTasks now m =
     (let taskCount = length (tasks m);
          m' = m\<lparr> tasks := [] \<rparr>
      in case notify m' SCHEDULE_CLEARED
                (createSuccess now
                   (''Schedule cleared. '' @ showNat taskCount @ '' tasks removed.'')
                   (Some [(''removedCount'', PNumber taskCount)])) of
           (r, fx) \<Rightarrow> (r, m', fx))"


definition startMinutes :: "Task \<Rightarrow> int" where
  "startMinutes t = (case timeToMinutes (startTime t) of Inr n \<Rightarrow> n | Inl _ \<Rightarrow> 0)"


text \<open>
  A JSON text is modelled by what \<^verbatim>\<open>JSON.parse\<close> makes of it: a syntax error, a
  value that is not an array, or an array of task records. The records have the
  properties that \<^verbatim>\<open>toJSON\<close> writes, with their types. \<^verbatim>\<open>JSON.stringify\<close> followed
  by \<^verbatim>\<open>JSON.parse\<close> gives back the array of records it was given.
\<close>

datatype JSONText = Unparsable string | NonArray | TaskArray "TaskJSON list"


text \<open>The \<^verbatim>\<open>for\<close> loop of \<^verbatim>\<open>importFromJSON\<close>, on the map that was cleared before it.\<close>

fun importLoop :: "TaskJSON list \<Rightarrow> (string \<times> Task) list \<Rightarrow> (error + unit) \<times> (string \<times> Task) list" where
  "importLoop [] ts = (Inr (), ts)"
| "importLoop (taskData # rest) ts =
     (let task = fromJSON taskData
      in case validateTask task of
           Inl e \<Rightarrow> (Inl e, ts)
         | Inr _ \<Rightarrow> importLoop rest (AList.update (id' task) task ts))"

text \<open>The \<^verbatim>\<open>catch\<close> block of \<^verbatim>\<open>importFromJSON\<close> logs and throws the same error again.\<close>

definition importFromJSON :: "int \<Rightarrow> JSONText \<Rightarrow> ScheduleManager \<Rightarrow> unit outcome" where
  "importFromJSON now jsonString m =
     (case jsonString of
        Unparsable msg \<Rightarrow> (Inl (JSError ''SyntaxError'' msg), m, [])
      | NonArray \<Rightarrow> (Inl (Error ''JSON must contain an array of tasks''), m, [])
      | TaskArray tasksData \<Rightarrow>
          (case importLoop tasksData [] of
             (Inl e, ts) \<Rightarrow> (Inl e, m\<lparr> tasks := ts \<rparr>, [])
           | (Inr _, ts) \<Rightarrow>
               (let m' = m\<lparr> tasks := ts \<rparr>
                in case notify m' SCHEDULE_IMPORTED
                          (createSuccess now
                             (''Imported '' @ showNat (length tasksData) @ '' tasks successfully'')
                             (Some [(''importedCount'', PNumber (length tasksData))])) of
                     (r, fx) \<Rightarrow> (r, m', fx))))"

subsection \<open>Runs of the manager\<close>

text \<open>The mutating operations of the public interface, and the manager that a call
  leaves behind, whether it returned or threw.\<close>

datatype operation =
    AddTask Task
  | UpdateTask string TaskUpdates
  | RemoveTask string
  | MarkTaskCompleted string
  | ClearAllTasks
  | ImportFromJSON JSONText

fun perform :: "int \<Rightarrow> operation \<Rightarrow> ScheduleManager \<Rightarrow> ScheduleManager" where
  "perform now (AddTask task) m = fst (snd (addTask now task m))"
| "perform now (UpdateTask taskId updatedTask) m = fst (snd (updateTask now taskId updatedTask m))"
| "perform now (RemoveTask d) m = fst (snd (removeTask now d m))"
| "perform now (MarkTaskCompleted d) m = fst (snd (markTaskCompleted now d m))"
| "perform now ClearAllTasks m = fst (snd (clearAllTasks now m))"
| "perform now (ImportFromJSON jsonString) m = fst (snd (importFromJSON now jsonString m))"

fun performAll :: "(int \<times> operation) list \<Rightarrow> ScheduleManager \<Rightarrow> ScheduleManager" where
  "performAll [] m = m"
| "performAll ((now, op) # rest) m = performAll rest (perform now op m)"

definition newScheduleManager :: "IObserver list \<Rightarrow> ScheduleManager" where
  "newScheduleManager obs = \<lparr> tasks = [], observers = obs \<rparr>"

text \<open>The events published by a call, in order.\<close>

fun published :: "effect list \<Rightarrow> (ScheduleEvent \<times> IEventData) list" where
  "published [] = []"
| "published (Published event d # fx) = (event, d) # published fx"
| "published (_ # fx) = published fx"

text \<open>What the caller and the schedule see of a call: the value returned or the
  error thrown, the stored tasks afterwards, and the events published.\<close>

definition observable :: "'a outcome \<Rightarrow> (error + 'a) \<times> (string \<times> Task) list \<times> (ScheduleEvent \<times> IEventData) list" where
  "observable r = (fst r, tasks (fst (snd r)), published (snd (snd r)))"



text \<open>\<^verbatim>\<open>data.context?.key\<close>, as the observers \<^verbatim>\<open>ConflictNotifier\<close> and \<^verbatim>\<open>TaskLogger\<close>
  read the payload of an event.\<close>

definition contextProperty :: "IEventData \<Rightarrow> string \<Rightarrow> payload option" where
  "contextProperty d key = (case context' d of None \<Rightarrow> None | Some c \<Rightarrow> map_of c key)"

definition dataProperty :: "IEventData \<Rightarrow> string \<Rightarrow> payload option" where
  "dataProperty d key = (case data d of None \<Rightarrow> None | Some c \<Rightarrow> map_of c key)"

subsection \<open>Properties of schedules\<close>

text \<open>Two tasks overlap when \<^verbatim>\<open>doTimeRangesOverlap\<close> says so of their times.\<close>

definition overlaps :: "Task \<Rightarrow> Task \<Rightarrow> bool" where
  "overlaps a b \<longleftrightarrow>
     doTimeRangesOverlap (startTime a) (endTime a) (startTime b) (endTime b) = Inr True"

text \<open>The schedule invariant: no two stored tasks with different identifiers overlap.\<close>

definition no_overlap :: "ScheduleManager \<Rightarrow> bool" where
  "no_overlap m \<longleftrightarrow>
     (\<forall>a \<in> set (map snd (tasks m)). \<forall>b \<in> set (map snd (tasks m)).
        id' a \<noteq> id' b \<longrightarrow> \<not> overlaps a b)"

text \<open>A schedule is well formed when its keys are distinct, every task is stored
  under its own identifier, and every stored task passes \<^verbatim>\<open>validateTask\<close>.\<close>

definition well_formed :: "ScheduleManager \<Rightarrow> bool" where
  "well_formed m \<longleftrightarrow>
     distinct (map fst (tasks m)) \<and>
     (\<forall>(k, t) \<in> set (tasks m). k = id' t \<and> validateTask t = Inr ())"

fun isImport :: "operation \<Rightarrow> bool" where
  "isImport (ImportFromJSON _) = True"
| "isImport _ = False"

subsection \<open>The scenario of the specification\<close>

text \<open>Task A (09:00 to 10:00, Medium), Task B (10:00 to 11:00, Low) and
  Task C (09:30 to 10:30, High).\<close>

definition taskA :: Task where
  "taskA = \<lparr> id' = ''TASK-1'', description = ''Task A'', startTime = ''09:00'',
             endTime = ''10:00'', priority = MEDIUM, completed = False,
             createdAt = 0, updatedAt = None \<rparr>"

definition taskB :: Task where
  "taskB = \<lparr> id' = ''TASK-2'', description = ''Task B'', startTime = ''10:00'',
             endTime = ''11:00'', priority = LOW, completed = False,
             createdAt = 1, updatedAt = None \<rparr>"

definition taskC :: Task where
  "taskC = \<lparr> id' = ''TASK-3'', description = ''Task C'', startTime = ''09:30'',
             endTime = ''10:30'', priority = HIGH, completed = False,
             createdAt = 2, updatedAt = None \<rparr>"

text \<open>The schedule after A and B were added to the empty schedule.\<close>

definition scheduleAB :: ScheduleManager where
  "scheduleAB = performAll [(0, AddTask taskA), (1, AddTask taskB)] (newScheduleManager [])"




text \<open>Two changes of Task B: moving its start to 09:30, into Task A; and the same
  move together with a blank description.\<close>

definition shiftB :: TaskUpdates where
  "shiftB = \<lparr> description_upd = None, startTime_upd = Some ''09:30'', endTime_upd = None,
              priority_upd = None, completed_upd = None \<rparr>"



section \<open>Time intervals\<close>

lemma isDigit_not_special:
  "isDigit c \<Longrightarrow> \<not> isWhiteSpace c \<and> c \<noteq> CHR ''-'' \<and> c \<noteq> CHR ''+'' \<and> c \<noteq> CHR '':''"
  by (auto simp: isDigit_def isWhiteSpace_def)

lemma digitValue_range: "isDigit c \<Longrightarrow> 0 \<le> digitValue c \<and> digitValue c \<le> 9"
  by (auto simp: isDigit_def digitValue_def)

lemma parseInt_two_digits:
  "isDigit a \<Longrightarrow> isDigit b \<Longrightarrow> parseInt [a, b] = Some (digitValue a * 10 + digitValue b)"
  using isDigit_not_special[of a]
  by (simp add: parseInt_def parseUnsigned_def digitsValue_def)

lemma split_hhmm:
  "isDigit a \<Longrightarrow> isDigit b \<Longrightarrow> isDigit c \<Longrightarrow> isDigit d \<Longrightarrow>
   split (CHR '':'') [a, b, CHR '':'', c, d] = [ [a, b], [c, d] ]"
  using isDigit_not_special[of a] isDigit_not_special[of b]
        isDigit_not_special[of c] isDigit_not_special[of d]
  by simp

text \<open>On a string of the form HH:MM, \<^verbatim>\<open>timeToMinutes\<close> is sixty times the hours plus
  the minutes.\<close>

lemma timeToMinutes_hhmm:
  "isDigit a \<Longrightarrow> isDigit b \<Longrightarrow> isDigit c \<Longrightarrow> isDigit d \<Longrightarrow>
   timeToMinutes [a, b, CHR '':'', c, d]
     = Inr ((digitValue a * 10 + digitValue b) * 60 + (digitValue c * 10 + digitValue d))"
  by (simp add: timeToMinutes_def split_hhmm parseInt_two_digits del: split.simps)

lemma TIME_REGEX_test_shape:
  assumes "TIME_REGEX_test t"
  obtains a b c d where "t = [a, b, CHR '':'', c, d]"
    "isDigit a" "isDigit b" "isDigit c" "isDigit d"
    "digitValue a * 10 + digitValue b \<le> 23" "digitValue c * 10 + digitValue d \<le> 59"
proof (cases t rule: TIME_REGEX_test.cases)
  case (1 h1 h2 c m1 m2)
  with assms have "isDigit h1 \<and> isDigit h2 \<and> isDigit m1 \<and> isDigit m2 \<and> c = CHR '':''
     \<and> digitValue h1 * 10 + digitValue h2 \<le> 23 \<and> digitValue m1 * 10 + digitValue m2 \<le> 59"
    by (auto simp: isDigit_def digitValue_def)
  with 1 that show ?thesis by blast
qed (use assms in simp_all)

text \<open>A time that passes \<^verbatim>\<open>validateTimeFormat\<close> converts, to a minute of the day.\<close>

lemma timeToMinutes_valid:
  assumes "TIME_REGEX_test t"
  shows "\<exists>n. timeToMinutes t = Inr n \<and> 0 \<le> n \<and> n \<le> 1439"
proof -
  from assms obtain a b c d where t: "t = [a, b, CHR '':'', c, d]"
    and dg: "isDigit a" "isDigit b" "isDigit c" "isDigit d"
    and bd: "digitValue a * 10 + digitValue b \<le> 23" "digitValue c * 10 + digitValue d \<le> 59"
    by (rule TIME_REGEX_test_shape)
  from dg have "0 \<le> digitValue a" "0 \<le> digitValue b" "0 \<le> digitValue c" "0 \<le> digitValue d"
    by (simp_all add: digitValue_range)
  with bd show ?thesis
    unfolding t by (simp add: timeToMinutes_hhmm[OF dg])
qed

lemma validateTimeFormat_Inr: "validateTimeFormat t = Inr u \<longleftrightarrow> TIME_REGEX_test t"
  by (simp add: validateTimeFormat_def)

text \<open>
  C5. For times that pass \<^verbatim>\<open>validateTimeFormat\<close>, \<^verbatim>\<open>doTimeRangesOverlap\<close> returns (it
  does not throw) and its value is true exactly when the first range starts before
  the second ends and the second starts before the first ends, in minutes of the
  day. Hence swapping the two ranges does not change the result, and two ranges
  that only touch at a boundary do not overlap.
\<close>

theorem doTimeRangesOverlap_half_open:
  assumes "validateTimeFormat start1 = Inr ()" "validateTimeFormat end1 = Inr ()"
    and "validateTimeFormat start2 = Inr ()" "validateTimeFormat end2 = Inr ()"
  shows "\<exists>s1 e1 s2 e2.
           timeToMinutes start1 = Inr s1 \<and> timeToMinutes end1 = Inr e1 \<and>
           timeToMinutes start2 = Inr s2 \<and> timeToMinutes end2 = Inr e2 \<and>
           doTimeRangesOverlap start1 end1 start2 end2 = Inr (s1 < e2 \<and> s2 < e1) \<and>
           doTimeRangesOverlap start2 end2 start1 end1
             = doTimeRangesOverlap start1 end1 start2 end2 \<and>
           (end1 = start2 \<or> end2 = start1
              \<longrightarrow> doTimeRangesOverlap start1 end1 start2 end2 = Inr False)"
proof -
  from assms obtain s1 e1 s2 e2 where
    m: "timeToMinutes start1 = Inr s1" "timeToMinutes end1 = Inr e1"
       "timeToMinutes start2 = Inr s2" "timeToMinutes end2 = Inr e2"
    using timeToMinutes_valid validateTimeFormat_Inr by metis
  have "doTimeRangesOverlap start1 end1 start2 end2 = Inr (s1 < e2 \<and> s2 < e1)"
    by (simp add: doTimeRangesOverlap_def m)
  moreover have "doTimeRangesOverlap start2 end2 start1 end1 = Inr (s2 < e1 \<and> s1 < e2)"
    by (simp add: doTimeRangesOverlap_def m)
  moreover have "end1 = start2 \<Longrightarrow> s2 = e1" using m by simp
  moreover have "end2 = start1 \<Longrightarrow> s1 = e2" using m by simp
  ultimately show ?thesis using m by auto
qed

theorem doTimeRangesOverlap_half_open_witness:
  "validateTimeFormat ''09:00'' = Inr () \<and> validateTimeFormat ''10:00'' = Inr ()
   \<and> validateTimeFormat ''11:00'' = Inr ()
   \<and> doTimeRangesOverlap ''09:00'' ''10:00'' ''10:00'' ''11:00'' = Inr False
   \<and> doTimeRangesOverlap ''10:00'' ''11:00'' ''09:00'' ''10:00'' = Inr False"
proof -
  have v: "validateTimeFormat ''09:00'' = Inr ()" "validateTimeFormat ''10:00'' = Inr ()"
    "validateTimeFormat ''11:00'' = Inr ()"
    by (simp_all add: validateTimeFormat_def isDigit_def)
  from doTimeRangesOverlap_half_open[OF v(1) v(2) v(2) v(3)] v show ?thesis
    by auto
qed

section \<open>Event dispatch\<close>

lemma published_append: "published (xs @ ys) = published xs @ published ys"
  by (induction xs rule: published.induct) auto


text \<open>One turn of the loop: the catch block absorbs what the observer throws, and
  the loop goes on with the rest.\<close>

lemma notifyLoop_step:
  assumes "notifyLoop (Suc i) rest event d = (Inr (), fx')"
  shows "notifyLoop i (observer # rest) event d =
     (Inr (),
      (if snd (notifyObserver observer event d) then [Invoked i event d] else [])
      @ (case fst (notifyObserver observer event d) of
           Inl e \<Rightarrow> [ObserverFailed i (getName observer) event e] | Inr _ \<Rightarrow> [])
      @ fx')"
proof -
  obtain r0 called where no: "notifyObserver observer event d = (r0, called)"
    by (cases "notifyObserver observer event d")
  show ?thesis
    by (cases r0) (simp_all add: no assms notifyCatch_def)
qed

lemma notifyLoop_returns: "fst (notifyLoop i obs event d) = Inr ()"
proof (induction obs arbitrary: i)
  case Nil
  show ?case by simp
next
  case (Cons observer rest)
  obtain fx' where "notifyLoop (Suc i) rest event d = (Inr (), fx')"
    using Cons.IH[of "Suc i"] by (cases "notifyLoop (Suc i) rest event d") simp
  from notifyLoop_step[OF this] show ?case by simp
qed

lemma notifyLoop_effects:
  "snd (notifyLoop i (observer # rest) event d) =
      (if snd (notifyObserver observer event d) then [Invoked i event d] else [])
      @ (case fst (notifyObserver observer event d) of
           Inl e \<Rightarrow> [ObserverFailed i (getName observer) event e] | Inr _ \<Rightarrow> [])
      @ snd (notifyLoop (Suc i) rest event d)"
proof -
  obtain fx' where r: "notifyLoop (Suc i) rest event d = (Inr (), fx')"
    using notifyLoop_returns[of "Suc i" rest event d]
    by (cases "notifyLoop (Suc i) rest event d") simp
  from notifyLoop_step[OF r] r show ?thesis by simp
qed

lemma published_notifyLoop: "published (snd (notifyLoop i obs event d)) = []"
proof (induction obs arbitrary: i)
  case Nil
  show ?case by simp
next
  case (Cons observer rest)
  show ?case
    unfolding notifyLoop_effects
    by (simp add: published_append Cons.IH split: sum.splits)
qed

lemma notify_eq:
  "notify m event d = (Inr (), Published event d # snd (notifyLoop 0 (observers m) event d))"
  using notifyLoop_returns[of 0 "observers m" event d]
  by (cases "notifyLoop 0 (observers m) event d") (simp add: notify_def)

lemma published_notify: "published (snd (notify m event d)) = [(event, d)]"
  by (simp add: notify_eq published_notifyLoop)











section \<open>Validation and the conflict scan\<close>

lemma timeToMinutes_error:
  "timeToMinutes t = Inl e \<Longrightarrow> error_name e = ''InvalidTimeFormatError''"
  by (auto simp: timeToMinutes_def InvalidTimeFormatError_def Let_def
      split: option.splits list.splits)

lemma doTimeRangesOverlap_error:
  "doTimeRangesOverlap s1 e1 s2 e2 = Inl e \<Longrightarrow> error_name e = ''InvalidTimeFormatError''"
  by (auto simp: doTimeRangesOverlap_def split: sum.splits dest: timeToMinutes_error)

lemma checkTaskOverlap_error:
  "checkTaskOverlap newTask ts = Inl e \<Longrightarrow> error_name e = ''InvalidTimeFormatError''"
  by (induction ts) (auto split: if_splits sum.splits dest: doTimeRangesOverlap_error)

lemma validateTask_error:
  "validateTask t = Inl e \<Longrightarrow>
   error_name e \<in> {''InvalidTaskDescriptionError'', ''InvalidTimeFormatError'', ''InvalidTimeRangeError''}"
  by (auto simp: validateTask_def validateTimeFormat_def validateTimeRange_def
      InvalidTaskDescriptionError_def InvalidTimeFormatError_def InvalidTimeRangeError_def
      split: if_splits sum.splits dest: timeToMinutes_error)

lemma validateTask_times:
  assumes "validateTask t = Inr ()"
  shows "\<exists>s e. timeToMinutes (startTime t) = Inr s \<and> timeToMinutes (endTime t) = Inr e \<and> s < e"
  using assms
  by (auto simp: validateTask_def validateTimeRange_def split: if_splits sum.splits)

lemma doTimeRangesOverlap_valid:
  assumes "validateTask a = Inr ()" "validateTask b = Inr ()"
  shows "doTimeRangesOverlap (startTime a) (endTime a) (startTime b) (endTime b) = Inr (overlaps a b)"
proof -
  from validateTask_times[OF assms(1)] validateTask_times[OF assms(2)]
  obtain s1 e1 s2 e2 where "timeToMinutes (startTime a) = Inr s1" "timeToMinutes (endTime a) = Inr e1"
    "timeToMinutes (startTime b) = Inr s2" "timeToMinutes (endTime b) = Inr e2"
    by blast
  then show ?thesis
    by (simp add: overlaps_def doTimeRangesOverlap_def)
qed

text \<open>Among valid tasks the scan returns the first stored task, in the order given,
  that has another identifier and overlaps the new one.\<close>

lemma checkTaskOverlap_find:
  assumes "validateTask newTask = Inr ()" "\<forall>t \<in> set ts. validateTask t = Inr ()"
  shows "checkTaskOverlap newTask ts
           = Inr (find (\<lambda>t. id' t \<noteq> id' newTask \<and> overlaps newTask t) ts)"
  using assms(2)
  by (induction ts) (simp_all add: doTimeRangesOverlap_valid[OF assms(1)])



lemma well_formed_valid:
  "well_formed m \<Longrightarrow> t \<in> set (map snd (tasks m)) \<Longrightarrow> validateTask t = Inr ()"
  by (auto simp: well_formed_def)

lemma well_formed_key:
  "well_formed m \<Longrightarrow> map_of (tasks m) k = Some t \<Longrightarrow> id' t = k \<and> validateTask t = Inr ()"
  by (auto simp: well_formed_def dest!: map_of_SomeD)

lemma checkForConflict_well_formed:
  assumes "well_formed m" "validateTask task = Inr ()"
  shows "checkForConflict m task
           = Inr (find (\<lambda>t. id' t \<noteq> id' task \<and> overlaps task t) (map snd (tasks m)))"
  unfolding checkForConflict_def
  using assms by (intro checkTaskOverlap_find) (auto simp: well_formed_def)

section \<open>The four ways of addTask\<close>


lemma addTask_check_error:
  "validateTask task = Inr () \<Longrightarrow> checkForConflict m task = Inl e \<Longrightarrow>
   addTask now task m =
     (Inl e, m,
      snd (notify m TASK_ADD_FAILED
             (createError now e (Some (''Failed to add task '' @ dquote @ description task @ dquote)))))"
  by (simp add: addTask_def addTask_try_def notify_eq)

lemma addTask_conflict:
  "validateTask task = Inr () \<Longrightarrow> checkForConflict m task = Inr (Some c) \<Longrightarrow>
   addTask now task m =
     (Inl (TaskConflictError
               (''Task conflicts with existing task '' @ dquote @ description c @ dquote
                @ '' ('' @ startTime c @ ''-'' @ endTime c @ '')'')), m,
      snd (notify m TASK_CONFLICT
             (create now
                (Some (''Task '' @ dquote @ description task @ dquote
                       @ '' conflicts with '' @ dquote @ description c @ dquote))
                (Some [(''newTask'', PTask task), (''existingTask'', PTask c)]) None))
      @ snd (notify m TASK_ADD_FAILED
             (createError now
                (TaskConflictError
               (''Task conflicts with existing task '' @ dquote @ description c @ dquote
                @ '' ('' @ startTime c @ ''-'' @ endTime c @ '')''))
                (Some (''Failed to add task '' @ dquote @ description task @ dquote)))))"
  by (simp add: addTask_def addTask_try_def notify_eq)

lemma addTask_success:
  "validateTask task = Inr () \<Longrightarrow> checkForConflict m task = Inr None \<Longrightarrow>
   addTask now task m =
     (Inr (), m\<lparr> tasks := AList.update (id' task) task (tasks m) \<rparr>,
      snd (notify (m\<lparr> tasks := AList.update (id' task) task (tasks m) \<rparr>) TASK_ADDED
             (createSuccess now
                (''Task '' @ dquote @ description task @ dquote @ '' added successfully'')
                (Some [(''task'', PJSON (toJSON task))]))))"
  by (simp add: addTask_def addTask_try_def notify_eq Let_def)

lemma addTask_cases:
  obtains
    (invalid) e where "validateTask task = Inl e"
      "observable (addTask now task m)
         = (Inl e, tasks m,
            [(TASK_ADD_FAILED,
              createError now e (Some (''Failed to add task '' @ dquote @ description task @ dquote)))])"
  | (check_error) e where "validateTask task = Inr ()" "checkForConflict m task = Inl e"
      "observable (addTask now task m)
         = (Inl e, tasks m,
            [(TASK_ADD_FAILED,
              createError now e (Some (''Failed to add task '' @ dquote @ description task @ dquote)))])"
  | (conflict) c msg msg' where "validateTask task = Inr ()" "checkForConflict m task = Inr (Some c)"
      "observable (addTask now task m)
         = (Inl (TaskConflictError msg), tasks m,
            [(TASK_CONFLICT,
              create now (Some msg') (Some [(''newTask'', PTask task), (''existingTask'', PTask c)]) None),
             (TASK_ADD_FAILED,
              createError now (TaskConflictError msg)
                (Some (''Failed to add task '' @ dquote @ description task @ dquote)))])"
  | (added) msg where "validateTask task = Inr ()" "checkForConflict m task = Inr None"
      "observable (addTask now task m)
         = (Inr (), AList.update (id' task) task (tasks m),
            [(TASK_ADDED, createSuccess now msg (Some [(''task'', PJSON (toJSON task))]))])"
proof (cases "validateTask task")
  case (Inl e)
  then show ?thesis
    by (intro invalid[of e])
       (simp_all add: observable_def addTask_def addTask_try_def notify_eq published_notifyLoop)
next
  case (Inr u)
  then have v: "validateTask task = Inr ()" by simp
  show ?thesis
  proof (cases "checkForConflict m task")
    case (Inl e)
    with v show ?thesis
      by (intro check_error[of e])
         (simp_all add: observable_def addTask_def addTask_try_def notify_eq published_notifyLoop)
  next
    case (Inr found)
    show ?thesis
    proof (cases found)
      case None
      with v Inr show ?thesis
        by (intro added)
           (simp_all add: observable_def addTask_def addTask_try_def notify_eq
              published_notifyLoop Let_def)
    next
      case (Some c)
      with v Inr show ?thesis
        by (intro conflict[of c])
           (simp_all add: observable_def addTask_def addTask_try_def notify_eq
              published_notifyLoop published_append)
    qed
  qed
qed

lemma dataProperty_createError:
  "dataProperty (createError now e msg) ''errorName'' = Some (PString (error_name e))"
  by (simp add: dataProperty_def createError_def)

lemma error_createError: "error (createError now e msg) = Some e"
  by (simp add: createError_def)

section \<open>The scenario, evaluated\<close>

lemmas time_eval = validateTimeFormat_def validateTimeRange_def timeToMinutes_def
  parseInt_def parseUnsigned_def digitsValue_def digitValue_def isDigit_def isWhiteSpace_def
  doTimeRangesOverlap_def

lemma scenario_valid:
  "validateTask taskA = Inr ()" "validateTask taskB = Inr ()" "validateTask taskC = Inr ()"
  by (simp_all add: validateTask_def taskA_def taskB_def taskC_def trim_def time_eval)

lemma scenario_overlaps:
  "overlaps taskC taskA" "overlaps taskA taskC" "\<not> overlaps taskA taskB" "\<not> overlaps taskB taskA"
  "overlaps taskC taskB"
  by (simp_all add: overlaps_def taskA_def taskB_def taskC_def time_eval)

lemma scenario_ids:
  "id' taskA = ''TASK-1''" "id' taskB = ''TASK-2''" "id' taskC = ''TASK-3''"
  by (simp_all add: taskA_def taskB_def taskC_def)

lemma scheduleAB_eq:
  "scheduleAB = \<lparr> tasks = [(''TASK-1'', taskA), (''TASK-2'', taskB)], observers = [] \<rparr>"
proof -
  let ?m0 = "\<lparr> tasks = [], observers = [] \<rparr>"
  let ?m1 = "\<lparr> tasks = [(''TASK-1'', taskA)], observers = [] \<rparr>"
  have a: "checkForConflict ?m0 taskA = Inr None"
    by (simp add: checkForConflict_def)
  have b: "checkForConflict ?m1 taskB = Inr None"
    using scenario_overlaps(4)
    by (simp add: checkForConflict_def scenario_ids
        doTimeRangesOverlap_valid[OF scenario_valid(2) scenario_valid(1)])
  have "perform 0 (AddTask taskA) ?m0 = ?m1"
    unfolding perform.simps addTask_success[OF scenario_valid(1) a]
    by (simp add: scenario_ids)
  moreover have "perform 1 (AddTask taskB) ?m1
      = \<lparr> tasks = [(''TASK-1'', taskA), (''TASK-2'', taskB)], observers = [] \<rparr>"
    unfolding perform.simps addTask_success[OF scenario_valid(2) b]
    by (simp add: scenario_ids)
  ultimately show ?thesis
    by (simp add: scheduleAB_def newScheduleManager_def)
qed

lemma scheduleAB_well_formed: "well_formed scheduleAB"
  by (simp add: well_formed_def scheduleAB_eq scenario_valid scenario_ids)

lemma scheduleAB_conflict_C: "checkForConflict scheduleAB taskC = Inr (Some taskA)"
  unfolding checkForConflict_well_formed[OF scheduleAB_well_formed scenario_valid(3)]
  using scenario_overlaps(1) by (simp add: scheduleAB_eq scenario_ids)

lemma map_of_scheduleAB: "map_of (tasks scheduleAB) ''TASK-2'' = Some taskB"
  by (simp add: scheduleAB_eq)

section \<open>removeTask\<close>

text \<open>
  C9. When no stored task has the given description, compared after \<^verbatim>\<open>toLowerCase\<close>
  on both sides, \<^verbatim>\<open>removeTask\<close> returns false; it does not throw, publishes no event
  and leaves the manager as it was.
\<close>

theorem removeTask_not_found:
  assumes "\<forall>t \<in> set (map snd (tasks m)). toLowerCase (description t) \<noteq> toLowerCase d"
  shows "removeTask now d m = (Inr False, m, [])"
proof -
  from assms have "getTaskByDescription m d = None"
    by (simp add: getTaskByDescription_def find_None_iff)
  then show ?thesis by (simp add: removeTask_def)
qed

theorem removeTask_not_found_witness:
  "toLowerCase (description taskA) \<noteq> toLowerCase ''task c''
   \<and> toLowerCase (description taskB) \<noteq> toLowerCase ''task c''
   \<and> removeTask 2 ''task c'' scheduleAB = (Inr False, scheduleAB, [])"
proof -
  have lc: "toLowerCase (description taskA) \<noteq> toLowerCase ''task c''"
    "toLowerCase (description taskB) \<noteq> toLowerCase ''task c''"
    by code_simp+
  then have "\<forall>t \<in> set (map snd (tasks scheduleAB)).
               toLowerCase (description t) \<noteq> toLowerCase ''task c''"
    by (simp add: scheduleAB_eq)
  from removeTask_not_found[OF this, of 2] lc show ?thesis
    by simp
qed

section \<open>addTask\<close>

text \<open>
  C10. Whenever \<^verbatim>\<open>addTask\<close> throws an error, the last event it published is
  \<^verbatim>\<open>TASK_ADD_FAILED\<close>, carrying that same error and, under \<^verbatim>\<open>errorName\<close> in its
  data, the error's name; and when the error thrown is the conflict error, the
  events published are exactly \<^verbatim>\<open>TASK_CONFLICT\<close> followed by \<^verbatim>\<open>TASK_ADD_FAILED\<close>.
\<close>

theorem addTask_failure_publishes_add_failed:
  "(fst (addTask now task m) = Inl e \<longrightarrow>
      (\<exists>before d. published (snd (snd (addTask now task m))) = before @ [(TASK_ADD_FAILED, d)]
          \<and> error d = Some e
          \<and> dataProperty d ''errorName'' = Some (PString (error_name e))))
   \<and> (fst (addTask now task m) = Inl e \<and> error_name e = ''TaskConflictError'' \<longrightarrow>
      map fst (published (snd (snd (addTask now task m)))) = [TASK_CONFLICT, TASK_ADD_FAILED])"
proof (cases rule: addTask_cases[of task now m])
  case (invalid e')
  from validateTask_error[OF invalid(1)] have "error_name e' \<noteq> ''TaskConflictError''" by auto
  with invalid(2) show ?thesis
    by (auto simp: observable_def dataProperty_createError error_createError TaskConflictError_def)
next
  case (check_error e')
  from checkTaskOverlap_error[of task _ e'] check_error(2)
  have "error_name e' \<noteq> ''TaskConflictError''" by (auto simp: checkForConflict_def)
  with check_error(3) show ?thesis
    by (auto simp: observable_def dataProperty_createError error_createError TaskConflictError_def)
next
  case (conflict c msg msg')
  then show ?thesis
    by (auto simp: observable_def dataProperty_createError error_createError TaskConflictError_def)
next
  case (added msg)
  then show ?thesis by (simp add: observable_def)
qed

theorem addTask_failure_publishes_add_failed_witness:
  "error_name (projl (fst (addTask 2 taskC scheduleAB))) = ''TaskConflictError''
   \<and> map fst (published (snd (snd (addTask 2 taskC scheduleAB)))) = [TASK_CONFLICT, TASK_ADD_FAILED]
   \<and> dataProperty (snd (last (published (snd (snd (addTask 2 taskC scheduleAB)))))) ''errorName''
        = Some (PString ''TaskConflictError'')"
proof -
  let ?e = "TaskConflictError
              (''Task conflicts with existing task '' @ dquote @ description taskA @ dquote
               @ '' ('' @ startTime taskA @ ''-'' @ endTime taskA @ '')'')"
  have e: "fst (addTask 2 taskC scheduleAB) = Inl ?e"
    unfolding addTask_conflict[OF scenario_valid(3) scheduleAB_conflict_C] by simp
  have n: "error_name ?e = ''TaskConflictError''"
    by (simp add: TaskConflictError_def)
  from addTask_failure_publishes_add_failed[of 2 taskC scheduleAB ?e] e n
  show ?thesis by auto
qed




section \<open>updateTask\<close>

lemma Task_update_id [simp]: "id' (Task_update now u t) = id' t"
  by (simp add: Task_update_def)

lemma updateTask_conflict:
  assumes "map_of (tasks m) taskId = Some task"
    and "validateTask (Task_update now updatedTask task) = Inr ()"
    and "checkTaskOverlap (Task_update now updatedTask task)
           (filter (\<lambda>t. id' t \<noteq> taskId) (map snd (tasks m))) = Inr (Some c)"
  shows "updateTask now taskId updatedTask m
          = (Inl (TaskConflictError
                   (''Update would conflict with task '' @ dquote @ description c @ dquote)),
             m,
             snd (notify m TASK_UPDATE_FAILED
                    (create now
                       (Some (''Task update would conflict with '' @ dquote @ description c @ dquote))
                       (Some [(''taskId'', PString taskId), (''updatedTask'', PUpdates updatedTask),
                              (''conflictingTask'', PJSON (toJSON c))]) None)))"
  using assms by (simp add: updateTask_def clone_def notify_eq)




section \<open>Import and export\<close>

lemma fromJSON_toJSON: "fromJSON (toJSON t) = t"
  by (simp add: fromJSON_def toJSON_def)


lemma id_fromJSON: "id' (fromJSON r) = id_json r"
  by (simp add: fromJSON_def)

text \<open>The loop stores the records before the first one that fails validation, and
  throws exactly when there is such a record.\<close>

lemma importLoop_tasks:
  "snd (importLoop rs ts)
     = foldl (\<lambda>ts r. AList.update (id_json r) (fromJSON r) ts) ts
         (takeWhile (\<lambda>r. validateTask (fromJSON r) = Inr ()) rs)"
  by (induction rs arbitrary: ts) (auto simp: Let_def id_fromJSON split: sum.splits)

lemma importLoop_result:
  "fst (importLoop rs ts) = Inr () \<longleftrightarrow> (\<forall>r \<in> set rs. validateTask (fromJSON r) = Inr ())"
  by (induction rs arbitrary: ts) (auto simp: Let_def split: sum.splits)

lemma importLoop_error:
  "fst (importLoop rs ts) = Inl e \<Longrightarrow>
   \<exists>r \<in> set rs. validateTask (fromJSON r) = Inl e"
  by (induction rs arbitrary: ts) (auto simp: Let_def split: sum.splits)

lemma importFromJSON_array:
  "(fst (importFromJSON now (TaskArray rs) m) = Inr ()
        \<longleftrightarrow> (\<forall>r \<in> set rs. validateTask (fromJSON r) = Inr ()))
   \<and> (\<forall>e. fst (importFromJSON now (TaskArray rs) m) = Inl e
        \<longrightarrow> (\<exists>r \<in> set rs. validateTask (fromJSON r) = Inl e)
            \<and> published (snd (snd (importFromJSON now (TaskArray rs) m))) = [])
   \<and> tasks (fst (snd (importFromJSON now (TaskArray rs) m)))
       = foldl (\<lambda>ts r. AList.update (id_json r) (fromJSON r) ts) []
           (takeWhile (\<lambda>r. validateTask (fromJSON r) = Inr ()) rs)"
proof -
  obtain r ts where l: "importLoop rs [] = (r, ts)" by (cases "importLoop rs []")
  from importLoop_tasks[of rs "[]"] importLoop_result[of rs "[]"] importLoop_error[of rs "[]"] l
  have ts: "ts = foldl (\<lambda>ts r. AList.update (id_json r) (fromJSON r) ts) []
                  (takeWhile (\<lambda>r. validateTask (fromJSON r) = Inr ()) rs)"
    and ok: "r = Inr () \<longleftrightarrow> (\<forall>r \<in> set rs. validateTask (fromJSON r) = Inr ())"
    and err: "\<And>e. r = Inl e \<Longrightarrow> \<exists>r \<in> set rs. validateTask (fromJSON r) = Inl e"
    by simp_all
  show ?thesis
  proof (cases r)
    case (Inl e)
    with l ts ok err[of e] show ?thesis
      by (simp add: importFromJSON_def)
  next
    case (Inr u)
    with l ts ok show ?thesis
      by (simp add: importFromJSON_def notify_eq Let_def)
  qed
qed















section \<open>Invariants of runs\<close>

lemma set_update_distinct:
  "distinct (map fst al) \<Longrightarrow>
   set (AList.update k v al) = insert (k, v) {p \<in> set al. fst p \<noteq> k}"
  by (induction al) (auto simp: rev_image_eqI)

lemma set_delete: "set (AList.delete k al) = {p \<in> set al. fst p \<noteq> k}"
  by (auto simp: AList.delete_eq)

lemma well_formed_update:
  assumes "well_formed m" "validateTask t = Inr ()"
  shows "well_formed (m\<lparr> tasks := AList.update (id' t) t (tasks m) \<rparr>)"
  using assms
  by (auto simp: well_formed_def distinct_update set_update_distinct)

lemma well_formed_delete:
  "well_formed m \<Longrightarrow> well_formed (m\<lparr> tasks := AList.delete k (tasks m) \<rparr>)"
  by (auto simp: well_formed_def distinct_delete set_delete)

lemma validateTask_markCompleted: "validateTask (markCompleted now t) = validateTask t"
  by (simp add: validateTask_def markCompleted_def cong: sum.case_cong)

lemma id_markCompleted: "id' (markCompleted now t) = id' t"
  by (simp add: markCompleted_def)

lemma modifyFirst_keys:
  "map fst (modifyFirst P (\<lambda>(k, t). (k, f t)) al) = map fst al"
  by (induction al) auto

lemma modifyFirst_set:
  "p \<in> set (modifyFirst P (\<lambda>(k, t). (k, f t)) al) \<Longrightarrow>
   p \<in> set al \<or> (\<exists>k t. (k, t) \<in> set al \<and> p = (k, f t))"
  by (induction al) (auto split: if_splits)

lemma well_formed_markCompleted:
  assumes "well_formed m"
  shows "well_formed (m\<lparr> tasks := modifyFirst P (\<lambda>(k, t). (k, markCompleted now t)) (tasks m) \<rparr>)"
proof -
  have "k = id' t \<and> validateTask t = Inr ()"
    if "(k, t) \<in> set (modifyFirst P (\<lambda>(k, t). (k, markCompleted now t)) (tasks m))" for k t
    using modifyFirst_set[OF that] assms
    by (auto simp: well_formed_def validateTask_markCompleted id_markCompleted)
  with assms show ?thesis
    by (auto simp: well_formed_def modifyFirst_keys)
qed

lemma well_formed_foldl_update:
  "well_formed (m\<lparr> tasks := ts \<rparr>) \<Longrightarrow> \<forall>r \<in> set rs. validateTask (fromJSON r) = Inr () \<Longrightarrow>
   well_formed (m\<lparr> tasks := foldl (\<lambda>ts r. AList.update (id_json r) (fromJSON r) ts) ts rs \<rparr>)"
proof (induction rs arbitrary: ts)
  case Nil
  then show ?case by simp
next
  case (Cons r rs)
  from well_formed_update[OF Cons.prems(1), of "fromJSON r"] Cons.prems(2)
  have "well_formed (m\<lparr> tasks := AList.update (id_json r) (fromJSON r) ts \<rparr>)"
    by (simp add: id_fromJSON)
  from Cons.IH[OF this] Cons.prems(2) show ?case by simp
qed

lemma well_formed_addTask: "well_formed m \<Longrightarrow> well_formed (perform now (AddTask task) m)"
  by (cases rule: addTask_cases[of task now m])
     (auto simp: observable_def well_formed_def distinct_update set_update_distinct)

lemma updateTask_state:
  "fst (snd (updateTask now taskId u m)) = m
   \<or> (\<exists>task. map_of (tasks m) taskId = Some task
         \<and> validateTask (Task_update now u task) = Inr ()
         \<and> checkTaskOverlap (Task_update now u task)
              (filter (\<lambda>t. id' t \<noteq> taskId) (map snd (tasks m))) = Inr None
         \<and> fst (snd (updateTask now taskId u m))
             = m\<lparr> tasks := AList.update taskId (Task_update now u task) (tasks m) \<rparr>)"
  by (auto simp: updateTask_def clone_def notify_eq Let_def split: option.splits sum.splits)

lemma well_formed_updateTask:
  assumes "well_formed m"
  shows "well_formed (perform now (UpdateTask taskId u) m)"
  using updateTask_state[of now taskId u m]
proof
  assume "fst (snd (updateTask now taskId u m)) = m"
  with assms show ?thesis by simp
next
  assume "\<exists>task. map_of (tasks m) taskId = Some task
         \<and> validateTask (Task_update now u task) = Inr ()
         \<and> checkTaskOverlap (Task_update now u task)
              (filter (\<lambda>t. id' t \<noteq> taskId) (map snd (tasks m))) = Inr None
         \<and> fst (snd (updateTask now taskId u m))
             = m\<lparr> tasks := AList.update taskId (Task_update now u task) (tasks m) \<rparr>"
  then obtain task where t: "map_of (tasks m) taskId = Some task"
    "validateTask (Task_update now u task) = Inr ()"
    "fst (snd (updateTask now taskId u m))
       = m\<lparr> tasks := AList.update taskId (Task_update now u task) (tasks m) \<rparr>"
    by blast
  from well_formed_key[OF assms t(1)] have "id' (Task_update now u task) = taskId" by simp
  with well_formed_update[OF assms t(2)] t(3) show ?thesis by simp
qed

lemma removeTask_state:
  "fst (snd (removeTask now d m)) = m
   \<or> (\<exists>k. fst (snd (removeTask now d m)) = m\<lparr> tasks := AList.delete k (tasks m) \<rparr>)"
  by (auto simp: removeTask_def notify_eq Let_def split: option.splits)

lemma well_formed_removeTask: "well_formed m \<Longrightarrow> well_formed (perform now (RemoveTask d) m)"
  using removeTask_state[of now d m] by (auto simp: well_formed_delete)

lemma markTaskCompleted_state:
  "fst (snd (markTaskCompleted now d m)) = m
   \<or> fst (snd (markTaskCompleted now d m))
       = m\<lparr> tasks := modifyFirst (\<lambda>(k, t). toLowerCase (description t) = toLowerCase d)
                        (\<lambda>(k, t). (k, markCompleted now t)) (tasks m) \<rparr>"
  by (auto simp: markTaskCompleted_def notify_eq Let_def split: option.splits)

lemma well_formed_markTaskCompleted:
  "well_formed m \<Longrightarrow> well_formed (perform now (MarkTaskCompleted d) m)"
  using markTaskCompleted_state[of now d m] by (auto simp: well_formed_markCompleted)

lemma well_formed_clearAllTasks: "well_formed (perform now ClearAllTasks m)"
  by (simp add: clearAllTasks_def notify_eq Let_def well_formed_def)

lemma importFromJSON_state:
  "fst (snd (importFromJSON now (TaskArray rs) m))
     = m\<lparr> tasks := tasks (fst (snd (importFromJSON now (TaskArray rs) m))) \<rparr>"
  by (auto simp: importFromJSON_def notify_eq Let_def split: prod.splits sum.splits)

lemma well_formed_importFromJSON:
  assumes "well_formed m"
  shows "well_formed (perform now (ImportFromJSON jsonString) m)"
proof (cases jsonString)
  case (TaskArray rs)
  have e: "well_formed (m\<lparr> tasks := [] \<rparr>)" by (simp add: well_formed_def)
  have "\<forall>r \<in> set (takeWhile (\<lambda>r. validateTask (fromJSON r) = Inr ()) rs).
          validateTask (fromJSON r) = Inr ()"
    by (auto dest: set_takeWhileD)
  from well_formed_foldl_update[OF e this]
  have "well_formed (m\<lparr> tasks := tasks (fst (snd (importFromJSON now (TaskArray rs) m))) \<rparr>)"
    by (simp add: importFromJSON_array)
  then show ?thesis
    using importFromJSON_state[of now rs m] TaskArray by simp
qed (use assms in \<open>simp_all add: importFromJSON_def\<close>)

lemma well_formed_perform: "well_formed m \<Longrightarrow> well_formed (perform now op m)"
  by (cases op)
     (simp_all only: well_formed_addTask well_formed_updateTask well_formed_removeTask
        well_formed_markTaskCompleted well_formed_clearAllTasks well_formed_importFromJSON)

lemma well_formed_performAll: "well_formed m \<Longrightarrow> well_formed (performAll ops m)"
  by (induction ops arbitrary: m) (auto simp: well_formed_perform)

text \<open>Every schedule that a run of the manager reaches from the empty schedule is
  well formed.\<close>

lemma reachable_well_formed: "well_formed (performAll ops (newScheduleManager obs))"
  by (rule well_formed_performAll) (simp add: well_formed_def newScheduleManager_def)

lemma overlaps_sym: "overlaps a b = overlaps b a"
  by (auto simp: overlaps_def doTimeRangesOverlap_def split: sum.splits)

lemma no_overlap_update:
  assumes wf: "well_formed m" and inv: "no_overlap m"
    and free: "\<forall>x \<in> set (map snd (tasks m)). id' x \<noteq> id' t \<longrightarrow> \<not> overlaps t x"
  shows "no_overlap (m\<lparr> tasks := AList.update (id' t) t (tasks m) \<rparr>)"
proof -
  from wf have d: "distinct (map fst (tasks m))" by (simp add: well_formed_def)
  have mem: "a = t \<or> (a \<in> snd ` set (tasks m) \<and> id' a \<noteq> id' t)"
    if "a \<in> snd ` set (AList.update (id' t) t (tasks m))" for a
    using that wf by (auto simp: set_update_distinct[OF d] well_formed_def)
  show ?thesis
    unfolding no_overlap_def
  proof (intro ballI impI)
    fix a b
    assume a: "a \<in> set (map snd (tasks (m\<lparr> tasks := AList.update (id' t) t (tasks m) \<rparr>)))"
      and b: "b \<in> set (map snd (tasks (m\<lparr> tasks := AList.update (id' t) t (tasks m) \<rparr>)))"
      and ne: "id' a \<noteq> id' b"
    from a have "a \<in> snd ` set (AList.update (id' t) t (tasks m))" by simp
    from mem[OF this] have a': "a = t \<or> (a \<in> snd ` set (tasks m) \<and> id' a \<noteq> id' t)" .
    from b have "b \<in> snd ` set (AList.update (id' t) t (tasks m))" by simp
    from mem[OF this] have b': "b = t \<or> (b \<in> snd ` set (tasks m) \<and> id' b \<noteq> id' t)" .
    from a' b' ne free inv show "\<not> overlaps a b"
      using overlaps_sym[of a t] by (auto simp: no_overlap_def)
  qed
qed

lemma no_overlap_subset:
  "no_overlap m \<Longrightarrow> set (map snd (tasks m')) \<subseteq> set (map snd (tasks m)) \<Longrightarrow> no_overlap m'"
  unfolding no_overlap_def by blast

lemma overlaps_markCompleted:
  "overlaps (markCompleted now a) b = overlaps a b" "overlaps a (markCompleted now b) = overlaps a b"
  by (simp_all add: overlaps_def markCompleted_def)

lemma no_overlap_addTask:
  assumes "well_formed m" "no_overlap m"
  shows "no_overlap (perform now (AddTask task) m)"
proof (cases rule: addTask_cases[of task now m])
  case (added msg)
  from checkForConflict_well_formed[OF assms(1) added(1)] added(2)
  have "find (\<lambda>t. id' t \<noteq> id' task \<and> overlaps task t) (map snd (tasks m)) = None"
    by simp
  then have "\<forall>x \<in> set (map snd (tasks m)). id' x \<noteq> id' task \<longrightarrow> \<not> overlaps task x"
    by (auto simp: find_None_iff)
  from no_overlap_update[OF assms this] added(3) show ?thesis
    by (simp add: observable_def no_overlap_def)
qed (use assms in \<open>simp_all add: observable_def no_overlap_def\<close>)

lemma no_overlap_updateTask:
  assumes "well_formed m" "no_overlap m"
  shows "no_overlap (perform now (UpdateTask taskId u) m)"
  using updateTask_state[of now taskId u m]
proof
  assume "fst (snd (updateTask now taskId u m)) = m"
  with assms show ?thesis by simp
next
  assume "\<exists>task. map_of (tasks m) taskId = Some task
         \<and> validateTask (Task_update now u task) = Inr ()
         \<and> checkTaskOverlap (Task_update now u task)
              (filter (\<lambda>t. id' t \<noteq> taskId) (map snd (tasks m))) = Inr None
         \<and> fst (snd (updateTask now taskId u m))
             = m\<lparr> tasks := AList.update taskId (Task_update now u task) (tasks m) \<rparr>"
  then obtain task where t: "map_of (tasks m) taskId = Some task"
    "validateTask (Task_update now u task) = Inr ()"
    "checkTaskOverlap (Task_update now u task)
       (filter (\<lambda>t. id' t \<noteq> taskId) (map snd (tasks m))) = Inr None"
    "fst (snd (updateTask now taskId u m))
       = m\<lparr> tasks := AList.update taskId (Task_update now u task) (tasks m) \<rparr>"
    by blast
  let ?trial = "Task_update now u task"
  from well_formed_key[OF assms(1) t(1)] have key: "id' ?trial = taskId" by simp
  have "\<forall>x \<in> set (filter (\<lambda>t. id' t \<noteq> taskId) (map snd (tasks m))). validateTask x = Inr ()"
    using assms(1) by (auto simp: well_formed_def)
  from checkTaskOverlap_find[OF t(2) this] t(3)
  have "find (\<lambda>x. id' x \<noteq> id' ?trial \<and> overlaps ?trial x)
          (filter (\<lambda>t. id' t \<noteq> taskId) (map snd (tasks m))) = None"
    by simp
  then have "\<forall>x \<in> set (map snd (tasks m)). id' x \<noteq> id' ?trial \<longrightarrow> \<not> overlaps ?trial x"
    using key by (auto simp: find_None_iff)
  from no_overlap_update[OF assms this] t(4) key show ?thesis
    by simp
qed

lemma no_overlap_removeTask:
  assumes "no_overlap m"
  shows "no_overlap (perform now (RemoveTask d) m)"
proof -
  have "no_overlap (m\<lparr> tasks := AList.delete k (tasks m) \<rparr>)" for k
    by (rule no_overlap_subset[OF assms]) (auto simp: set_delete)
  with removeTask_state[of now d m] assms show ?thesis by auto
qed

lemma modifyFirst_values:
  "t' \<in> snd ` set (modifyFirst P (\<lambda>(k, t). (k, f t)) al) \<Longrightarrow>
   \<exists>t \<in> snd ` set al. t' = t \<or> t' = f t"
proof (induction al)
  case Nil
  then show ?case by simp
next
  case (Cons p al)
  obtain k t where p: "p = (k, t)" by (cases p)
  show ?case
  proof (cases "P p")
    case True
    with Cons.prems p have "t' = f t \<or> t' \<in> snd ` set al" by auto
    then show ?thesis using p by auto
  next
    case False
    with Cons.prems p have "t' = t \<or> t' \<in> snd ` set (modifyFirst P (\<lambda>(k, t). (k, f t)) al)"
      by auto
    with Cons.IH show ?thesis using p by auto
  qed
qed

lemma no_overlap_markTaskCompleted:
  assumes "no_overlap m"
  shows "no_overlap (perform now (MarkTaskCompleted d) m)"
  using markTaskCompleted_state[of now d m]
proof
  assume "fst (snd (markTaskCompleted now d m)) = m"
  with assms show ?thesis by simp
next
  let ?P = "\<lambda>(k, t). toLowerCase (description t) = toLowerCase d"
  let ?ts = "modifyFirst ?P (\<lambda>(k, t). (k, markCompleted now t)) (tasks m)"
  assume s: "fst (snd (markTaskCompleted now d m)) = m\<lparr> tasks := ?ts \<rparr>"
  have "\<not> overlaps a b" if a: "a \<in> snd ` set ?ts" and b: "b \<in> snd ` set ?ts"
    and ne: "id' a \<noteq> id' b" for a b
  proof -
    from modifyFirst_values[OF a] obtain a0
      where a0: "a0 \<in> snd ` set (tasks m)" "a = a0 \<or> a = markCompleted now a0" by blast
    from modifyFirst_values[OF b] obtain b0
      where b0: "b0 \<in> snd ` set (tasks m)" "b = b0 \<or> b = markCompleted now b0" by blast
    from a0(2) b0(2) have eq: "id' a = id' a0" "id' b = id' b0" "overlaps a b = overlaps a0 b0"
      by (auto simp: overlaps_markCompleted id_markCompleted)
    from assms a0(1) b0(1) ne eq(1,2) have "\<not> overlaps a0 b0"
      unfolding no_overlap_def by auto
    with eq(3) show ?thesis by simp
  qed
  then have "no_overlap (m\<lparr> tasks := ?ts \<rparr>)"
    by (simp add: no_overlap_def)
  with s show ?thesis by simp
qed

lemma no_overlap_clearAllTasks: "no_overlap (perform now ClearAllTasks m)"
  by (simp add: clearAllTasks_def notify_eq Let_def no_overlap_def)

lemma no_overlap_perform:
  "well_formed m \<Longrightarrow> no_overlap m \<Longrightarrow> \<not> isImport op \<Longrightarrow> no_overlap (perform now op m)"
  by (cases op)
     (simp_all only: no_overlap_addTask no_overlap_updateTask no_overlap_removeTask
        no_overlap_markTaskCompleted no_overlap_clearAllTasks isImport.simps not_True_eq_False)

lemma no_overlap_performAll:
  "well_formed m \<Longrightarrow> no_overlap m \<Longrightarrow> \<forall>(now, op) \<in> set ops. \<not> isImport op \<Longrightarrow>
   no_overlap (performAll ops m)"
proof (induction ops arbitrary: m)
  case Nil
  then show ?case by simp
next
  case (Cons p ops)
  obtain now op where p: "p = (now, op)" by (cases p)
  with Cons.prems have "well_formed (perform now op m)" "no_overlap (perform now op m)"
    by (simp_all add: well_formed_perform no_overlap_perform)
  from Cons.IH[OF this] Cons.prems(3) p show ?case by simp
qed

text \<open>Without \<^verbatim>\<open>importFromJSON\<close>, every schedule reached from the empty schedule keeps
  the tasks with different identifiers apart.\<close>

lemma no_overlap_without_import:
  "\<forall>(now, op) \<in> set ops. \<not> isImport op \<Longrightarrow> no_overlap (performAll ops (newScheduleManager obs))"
  by (rule no_overlap_performAll) (simp_all add: well_formed_def no_overlap_def newScheduleManager_def)

text \<open>
  C1. The invariant does not hold of every reachable schedule: \<^verbatim>\<open>importFromJSON\<close>
  validates each record but never runs the overlap check that \<^verbatim>\<open>addTask\<close> and
  \<^verbatim>\<open>updateTask\<close> run. Importing the records of Task A and Task C into the empty
  schedule returns normally and stores both, and the two overlap.
\<close>

theorem importFromJSON_stores_overlapping_tasks:
  "performAll [(0, ImportFromJSON (TaskArray [toJSON taskA, toJSON taskC]))] (newScheduleManager [])
     = \<lparr> tasks = [(''TASK-1'', taskA), (''TASK-3'', taskC)], observers = [] \<rparr>
   \<and> fst (importFromJSON 0 (TaskArray [toJSON taskA, toJSON taskC]) (newScheduleManager [])) = Inr ()
   \<and> id' taskA \<noteq> id' taskC
   \<and> doTimeRangesOverlap (startTime taskA) (endTime taskA) (startTime taskC) (endTime taskC)
       = Inr True"
proof -
  have "importLoop [toJSON taskA, toJSON taskC] [] = (Inr (), [(''TASK-1'', taskA), (''TASK-3'', taskC)])"
    by (simp add: fromJSON_toJSON scenario_valid scenario_ids)
  then show ?thesis
    using scenario_overlaps(2)
    by (simp add: importFromJSON_def newScheduleManager_def notify_eq scenario_ids overlaps_def)
qed

section \<open>What the events carry\<close>

text \<open>No event that the manager publishes has a \<^verbatim>\<open>context\<close>: the three functions of
  \<^verbatim>\<open>EventDataFactory\<close> put the payload under \<^verbatim>\<open>data\<close>.\<close>

lemma context_create:
  "context' (create now msg payload err) = None"
  "context' (createError now e msg') = None"
  "context' (createSuccess now msg'' payload) = None"
  by (simp_all add: create_def createError_def createSuccess_def)

lemma no_context_addTask:
  "list_all (\<lambda>(event, d). context' d = None) (published (snd (snd (addTask now task m))))"
  by (cases rule: addTask_cases[of task now m]) (simp_all add: observable_def context_create)

lemma no_context_updateTask:
  "list_all (\<lambda>(event, d). context' d = None) (published (snd (snd (updateTask now taskId u m))))"
  by (simp add: updateTask_def clone_def notify_eq published_notifyLoop Let_def context_create
      split: option.splits sum.splits)

lemma no_context_removeTask:
  "list_all (\<lambda>(event, d). context' d = None) (published (snd (snd (removeTask now descr m))))"
  by (simp add: removeTask_def notify_eq published_notifyLoop Let_def context_create
      split: option.splits)

lemma no_context_markTaskCompleted:
  "list_all (\<lambda>(event, d). context' d = None)
     (published (snd (snd (markTaskCompleted now descr m))))"
  by (simp add: markTaskCompleted_def notify_eq published_notifyLoop Let_def context_create
      split: option.splits)

lemma no_context_clearAllTasks:
  "list_all (\<lambda>(event, d). context' d = None) (published (snd (snd (clearAllTasks now m))))"
  by (simp add: clearAllTasks_def notify_eq published_notifyLoop Let_def context_create)

lemma no_context_importFromJSON:
  "list_all (\<lambda>(event, d). context' d = None)
     (published (snd (snd (importFromJSON now jsonString m))))"
  by (simp add: importFromJSON_def notify_eq published_notifyLoop Let_def context_create
      split: JSONText.splits prod.splits sum.splits)

text \<open>
  C8. Adding Task C to the schedule of A and B publishes \<^verbatim>\<open>TASK_CONFLICT\<close> and
  \<^verbatim>\<open>TASK_ADD_FAILED\<close>, each with a timestamp and a message. The payload of the
  conflict event is under \<^verbatim>\<open>data\<close>, with the keys \<^verbatim>\<open>newTask\<close> and \<^verbatim>\<open>existingTask\<close>; it
  has no \<^verbatim>\<open>context\<close>, and neither \<^verbatim>\<open>task\<close> nor \<^verbatim>\<open>conflictingTask\<close> is a key of it,
  so what the observers read as \<^verbatim>\<open>data.context?.conflictingTask\<close> is undefined.
  The failure event has \<^verbatim>\<open>errorName\<close> under \<^verbatim>\<open>data\<close>, not under \<^verbatim>\<open>context\<close>, and the
  \<^verbatim>\<open>TASK_UPDATE_FAILED\<close> event of a conflicting update has no \<^verbatim>\<open>errorName\<close> at all.
\<close>

theorem conflict_event_payload_keys:
  "published (snd (snd (addTask 2 taskC scheduleAB)))
     = [(TASK_CONFLICT,
         \<lparr> timestamp = 2,
           message = Some (''Task '' @ dquote @ ''Task C'' @ dquote @ '' conflicts with ''
                           @ dquote @ ''Task A'' @ dquote),
           data = Some [(''newTask'', PTask taskC), (''existingTask'', PTask taskA)],
           error = None, context' = None, isError = None \<rparr>),
        (TASK_ADD_FAILED,
         \<lparr> timestamp = 2,
           message = Some (''Failed to add task '' @ dquote @ ''Task C'' @ dquote),
           data = Some [(''errorName'', PString ''TaskConflictError''),
                        (''errorStack'',
                         PStack (TaskConflictError
                           (''Task conflicts with existing task '' @ dquote @ ''Task A'' @ dquote
                            @ '' (09:00-10:00)'')))],
           error = Some (TaskConflictError
                           (''Task conflicts with existing task '' @ dquote @ ''Task A'' @ dquote
                            @ '' (09:00-10:00)'')),
           context' = None, isError = None \<rparr>)]
   \<and> contextProperty (snd (hd (published (snd (snd (addTask 2 taskC scheduleAB))))))
        ''conflictingTask'' = None
   \<and> contextProperty (snd (hd (published (snd (snd (addTask 2 taskC scheduleAB))))))
        ''task'' = None
   \<and> dataProperty (snd (hd (published (snd (snd (addTask 2 taskC scheduleAB))))))
        ''conflictingTask'' = None
   \<and> dataProperty (snd (hd (published (snd (snd (addTask 2 taskC scheduleAB))))))
        ''task'' = None
   \<and> contextProperty (snd (last (published (snd (snd (addTask 2 taskC scheduleAB))))))
        ''errorName'' = None
   \<and> map fst (published (snd (snd (updateTask 2 ''TASK-2'' shiftB scheduleAB))))
        = [TASK_UPDATE_FAILED]
   \<and> dataProperty (snd (hd (published (snd (snd (updateTask 2 ''TASK-2'' shiftB scheduleAB))))))
        ''errorName'' = None
   \<and> contextProperty (snd (hd (published (snd (snd (updateTask 2 ''TASK-2'' shiftB scheduleAB))))))
        ''errorName'' = None"
proof -
  have v: "validateTask (Task_update 2 shiftB taskB) = Inr ()"
    by (simp add: validateTask_def Task_update_def shiftB_def taskB_def trim_def time_eval)
  have o: "overlaps (Task_update 2 shiftB taskB) taskA"
    by (simp add: overlaps_def Task_update_def shiftB_def taskA_def taskB_def time_eval)
  have "filter (\<lambda>t. id' t \<noteq> ''TASK-2'') (map snd (tasks scheduleAB)) = [taskA]"
    by (simp add: scheduleAB_eq scenario_ids)
  then have s: "checkTaskOverlap (Task_update 2 shiftB taskB)
                  (filter (\<lambda>t. id' t \<noteq> ''TASK-2'') (map snd (tasks scheduleAB)))
                = Inr (Some taskA)"
    using o by (simp add: scenario_ids doTimeRangesOverlap_valid[OF v scenario_valid(1)])
  have "published (snd (snd (addTask 2 taskC scheduleAB)))
     = [(TASK_CONFLICT,
         \<lparr> timestamp = 2,
           message = Some (''Task '' @ dquote @ ''Task C'' @ dquote @ '' conflicts with ''
                           @ dquote @ ''Task A'' @ dquote),
           data = Some [(''newTask'', PTask taskC), (''existingTask'', PTask taskA)],
           error = None, context' = None, isError = None \<rparr>),
        (TASK_ADD_FAILED,
         \<lparr> timestamp = 2,
           message = Some (''Failed to add task '' @ dquote @ ''Task C'' @ dquote),
           data = Some [(''errorName'', PString ''TaskConflictError''),
                        (''errorStack'',
                         PStack (TaskConflictError
                           (''Task conflicts with existing task '' @ dquote @ ''Task A'' @ dquote
                            @ '' (09:00-10:00)'')))],
           error = Some (TaskConflictError
                           (''Task conflicts with existing task '' @ dquote @ ''Task A'' @ dquote
                            @ '' (09:00-10:00)'')),
           context' = None, isError = None \<rparr>)]"
    unfolding addTask_conflict[OF scenario_valid(3) scheduleAB_conflict_C]
    by (simp add: published_append published_notify create_def createError_def
        TaskConflictError_def taskA_def taskC_def dquote_def)
  moreover have "published (snd (snd (updateTask 2 ''TASK-2'' shiftB scheduleAB)))
     = [(TASK_UPDATE_FAILED,
         create 2 (Some (''Task update would conflict with '' @ dquote @ description taskA @ dquote))
           (Some [(''taskId'', PString ''TASK-2''), (''updatedTask'', PUpdates shiftB),
                  (''conflictingTask'', PJSON (toJSON taskA))]) None)]"
    unfolding updateTask_conflict[OF map_of_scheduleAB v s]
    by (simp add: published_notify)
  ultimately show ?thesis
    by (simp add: contextProperty_def dataProperty_def create_def)
qed

end
